theory Spec2Isabelle
  imports Main "HOL-Library.Log_Nat" "HOL-Library.Multiset"
begin

section \<open>Python values used by \<open>src/main.py\<close>\<close>

subsection \<open>Exceptions\<close>

datatype py_error = IndexError | ValidationError | GatewayError

subsection \<open>Floats\<close>

text \<open>
  A Python float is an IEEE binary64 number. It is modelled by the rational number it
  denotes; every arithmetic operation computes the exact rational result and rounds it
  to the nearest number with a 53 bit significand, ties to even (\<open>rnd\<close>). The exponent
  range is not modelled: the scores of this program stay far away from overflow and
  from the subnormal range. \<open>sum\<close> is the left-to-right accumulation from the
  integer 0.
\<close>

type_synonym pyfloat = rat

definition rhe :: "rat \<Rightarrow> int" where
  \<comment> \<open>round to the nearest integer, ties to the even one\<close>
  "rhe r = (let f = \<lfloor>r\<rfloor>; d = r - of_int f
            in if d < 1/2 then f else if 1/2 < d then f + 1 else if even f then f else f + 1)"

definition fl_exp :: "rat \<Rightarrow> int" where
  \<comment> \<open>for \<open>0 < x\<close>: the exponent \<open>e\<close> with \<open>2 powi e \<le> x < 2 powi (e + 1)\<close>\<close>
  "fl_exp x = (let (p, q) = quotient_of x; e0 = bitlen p - bitlen q
               in if 2 powi e0 \<le> x then e0 else e0 - 1)"

definition rnd :: "rat \<Rightarrow> pyfloat" where
  "rnd x = (if x = 0 then 0
            else let u = 2 powi (fl_exp \<bar>x\<bar> - 52)
                 in sgn x * of_int (rhe (\<bar>x\<bar> / u)) * u)"

definition is_double :: "rat \<Rightarrow> bool" where
  "is_double x = (rnd x = x)"

definition py_float :: "rat \<Rightarrow> pyfloat" where
  \<comment> \<open>a decimal literal of the source, such as \<open>0.35\<close>\<close>
  "py_float x = rnd x"

definition fadd :: "pyfloat \<Rightarrow> pyfloat \<Rightarrow> pyfloat" where
  "fadd x y = rnd (x + y)"

definition fdiv :: "pyfloat \<Rightarrow> pyfloat \<Rightarrow> pyfloat" where
  "fdiv x y = rnd (x / y)"

definition fsum :: "pyfloat list \<Rightarrow> pyfloat" where
  \<comment> \<open>\<open>sum(xs)\<close>\<close>
  "fsum xs = foldl fadd 0 xs"

definition round3 :: "pyfloat \<Rightarrow> pyfloat" where
  \<comment> \<open>\<open>round(x, 3)\<close>: the correctly rounded 3-digit decimal, read back as a float\<close>
  "round3 x = rnd (of_int (rhe (x * 1000)) / 1000)"

definition clamp01 :: "pyfloat \<Rightarrow> pyfloat" where
  \<comment> \<open>\<open>max(0.0, min(1.0, x))\<close>\<close>
  "clamp01 x = max 0 (min 1 x)"

subsection \<open>Strings\<close>

text \<open>
  Strings are lists of characters. \<open>upper\<close>, \<open>lower\<close> and \<open>strip\<close> act on the ASCII
  letters and the ASCII white space; other characters are left as they are.
\<close>

definition is_space :: "char \<Rightarrow> bool" where
  "is_space c = (let n = (of_char c :: nat) in (9 \<le> n \<and> n \<le> 13) \<or> (28 \<le> n \<and> n \<le> 32))"

definition upper_char :: "char \<Rightarrow> char" where
  "upper_char c = (let n = (of_char c :: nat) in if 97 \<le> n \<and> n \<le> 122 then char_of (n - 32) else c)"

definition lower_char :: "char \<Rightarrow> char" where
  "lower_char c = (let n = (of_char c :: nat) in if 65 \<le> n \<and> n \<le> 90 then char_of (n + 32) else c)"

definition upper :: "string \<Rightarrow> string" where
  "upper s = map upper_char s"

definition lower :: "string \<Rightarrow> string" where
  "lower s = map lower_char s"

definition strip :: "string \<Rightarrow> string" where
  "strip s = rev (dropWhile is_space (rev (dropWhile is_space s)))"

definition startswith :: "string \<Rightarrow> string \<Rightarrow> bool" where
  \<comment> \<open>\<open>s.startswith(p)\<close>\<close>
  "startswith s p = (take (length p) s = p)"

fun contains :: "string \<Rightarrow> string \<Rightarrow> bool" where
  \<comment> \<open>\<open>k in s\<close>\<close>
  "contains k [] = (k = [])"
| "contains k (c # cs) = (startswith (c # cs) k \<or> contains k cs)"

definition split_first :: "string \<Rightarrow> py_error + string" where
  \<comment> \<open>\<open>s.split()[0]\<close>: the first white-space delimited word; IndexError when there is none\<close>
  "split_first s =
     (let w = takeWhile (\<lambda>c. \<not> is_space c) (dropWhile is_space s)
      in if w = [] then Inl IndexError else Inr w)"

section \<open>Data model\<close>

text \<open>
  The dictionaries of the knowledge base are mutable objects. They live in an object
  store (a list indexed by address); \<open>FAULT_CODE_MAP\<close> and the working list
  \<open>suggestions\<close> hold addresses, so that \<open>suggestions.extend(items)\<close> shares the
  objects of the table with the working list, as the source does.
\<close>

record entry =
  part :: string
  base :: pyfloat
  reason :: string

type_synonym addr = nat
type_synonym heap = "entry list"

record hint =
  hint_keywords :: "string list"
  hint_part :: string
  boost :: pyfloat

record Suggestion =
  sug_part :: string
  likelihood :: pyfloat
  sug_reason :: string

record DiagnoseRequest =
  name :: string
  model :: string
  fault_code :: "string option"
  description :: string

record DiagnoseResponse =
  suggestions :: "Suggestion list"
  resp_id :: "string option"

record carissue =
  doc_name :: string
  doc_model :: string
  doc_fault_code :: "string option"
  doc_description :: string
  doc_suggestions :: "Suggestion list"

subsection \<open>The knowledge base\<close>

definition init_heap :: heap where
  \<comment> \<open>the thirteen dictionaries written in \<open>FAULT_CODE_MAP\<close>, in source order\<close>
  "init_heap =
    [\<lparr>part = ''Spark Plugs'', base = py_float (6/10), reason = ''Engine misfire detected''\<rparr>,
     \<lparr>part = ''Ignition Coils'', base = py_float (5/10), reason = ''Weak/no spark''\<rparr>,
     \<lparr>part = ''Fuel Injectors'', base = py_float (35/100), reason = ''Fuel delivery issues''\<rparr>,
     \<lparr>part = ''Vacuum Leak'', base = py_float (25/100), reason = ''Unmetered air causing lean''\<rparr>,
     \<lparr>part = ''O2 Sensor (Upstream)'', base = py_float (5/10), reason = ''Fuel trim lean''\<rparr>,
     \<lparr>part = ''MAF Sensor'', base = py_float (45/100), reason = ''Airflow reading incorrect''\<rparr>,
     \<lparr>part = ''Vacuum Leak'', base = py_float (4/10), reason = ''Extra air entering intake''\<rparr>,
     \<lparr>part = ''Fuel Pump/Filter'', base = py_float (3/10), reason = ''Low fuel pressure''\<rparr>,
     \<lparr>part = ''Catalytic Converter'', base = py_float (6/10), reason = ''Efficiency below threshold''\<rparr>,
     \<lparr>part = ''O2 Sensor (Downstream)'', base = py_float (4/10), reason = ''Sensor aging or slow''\<rparr>,
     \<lparr>part = ''Exhaust Leak'', base = py_float (25/100), reason = ''False oxygen readings''\<rparr>,
     \<lparr>part = ''Throttle Position Sensor'', base = py_float (5/10), reason = ''TPS circuit issues''\<rparr>,
     \<lparr>part = ''Wiring/Connector'', base = py_float (35/100), reason = ''Signal interruption''\<rparr>]"

definition FAULT_CODE_MAP :: "(string \<times> addr list) list" where
  "FAULT_CODE_MAP =
    [(''P030'', [0, 1, 2, 3]),
     (''P017'', [4, 5, 6, 7]),
     (''P042'', [8, 9, 10]),
     (''P012'', [11, 12])]"

definition KEYWORD_HINTS :: "hint list" where
  "KEYWORD_HINTS =
    [\<lparr>hint_keywords = [''rough idle'', ''shakes'', ''vibration''], hint_part = ''Spark Plugs'', boost = py_float (15/100)\<rparr>,
     \<lparr>hint_keywords = [''stalls'', ''dies'', ''no start''], hint_part = ''Fuel Pump'', boost = py_float (2/10)\<rparr>,
     \<lparr>hint_keywords = [''hesitation'', ''lag'', ''surge''], hint_part = ''MAF Sensor'', boost = py_float (12/100)\<rparr>,
     \<lparr>hint_keywords = [''rotten egg'', ''sulfur''], hint_part = ''Catalytic Converter'', boost = py_float (18/100)\<rparr>,
     \<lparr>hint_keywords = [''whistle'', ''hiss''], hint_part = ''Vacuum Leak'', boost = py_float (15/100)\<rparr>]"

definition fallback_entries :: "entry list" where
  \<comment> \<open>the three dictionaries built afresh at lines 126-130\<close>
  "fallback_entries =
    [\<lparr>part = ''Battery'', base = py_float (25/100), reason = ''Common electrical issue''\<rparr>,
     \<lparr>part = ''Alternator'', base = py_float (2/10), reason = ''Charging system faults''\<rparr>,
     \<lparr>part = ''Spark Plugs'', base = py_float (18/100), reason = ''Wear item, causes misfires''\<rparr>]"

definition kb_table :: "heap \<Rightarrow> (string \<times> entry list) list" where
  \<comment> \<open>the contents of the global table: every rule with the fields of its entries\<close>
  "kb_table h = map (\<lambda>(key, items). (key, map (\<lambda>a. h ! a) items)) FAULT_CODE_MAP"

section \<open>The scoring engine: \<open>diagnose\<close>, lines 112-156\<close>

definition normalize_prefix :: "string \<Rightarrow> string" where
  \<comment> \<open>lines 118-119\<close>
  "normalize_prefix fc =
     (let clean = upper (strip fc) in if 4 \<le> length clean then take 4 clean else clean)"

fun seed :: "(string \<times> addr list) list \<Rightarrow> string \<Rightarrow> addr list" where
  \<comment> \<open>lines 120-122: the loop over the items of the table\<close>
  "seed [] prefix = []"
| "seed ((key, items) # rules) prefix =
     (if startswith prefix key then items @ seed rules prefix else seed rules prefix)"

fun boost_matching :: "heap \<Rightarrow> addr list \<Rightarrow> hint \<Rightarrow> py_error + heap" where
  \<comment> \<open>lines 136-138: the loop over the working list, for one hint\<close>
  "boost_matching h [] hnt = Inr h"
| "boost_matching h (s # ss) hnt =
     (case split_first (lower (hint_part hnt)) of
        Inl e \<Rightarrow> Inl e
      | Inr w \<Rightarrow>
          boost_matching
            (if startswith (lower (part (h ! s))) w
             then h[s := (h ! s)\<lparr>base := fadd (base (h ! s)) (boost hnt)\<rparr>]
             else h) ss hnt)"

fun apply_hints :: "hint list \<Rightarrow> string \<Rightarrow> addr list \<Rightarrow> heap \<Rightarrow> py_error + heap" where
  \<comment> \<open>lines 134-138: the loop over the hints\<close>
  "apply_hints [] desc ss h = Inr h"
| "apply_hints (hnt # hints) desc ss h =
     (if list_ex (\<lambda>k. contains k desc) (hint_keywords hnt)
      then (case boost_matching h ss hnt of
              Inl e \<Rightarrow> Inl e
            | Inr h' \<Rightarrow> apply_hints hints desc ss h')
      else apply_hints hints desc ss h)"

definition matched_suffix :: "string option \<Rightarrow> string" where
  \<comment> \<open>line 151: \<open>f" (matched {prefix})" if prefix else ""\<close>\<close>
  "matched_suffix prefix =
     (case prefix of
        None \<Rightarrow> []
      | Some p \<Rightarrow> if p = [] then [] else '' (matched '' @ p @ '')'')"

definition rank :: "heap \<Rightarrow> addr list \<Rightarrow> string option \<Rightarrow> Suggestion list" where
  \<comment> \<open>lines 141-152\<close>
  "rank h ss prefix =
     (let total0 = fsum (map (\<lambda>s. clamp01 (base (h ! s))) ss);
          total = (if total0 = 0 then 1 else total0)
      in map (\<lambda>s. \<lparr>sug_part = part (h ! s),
                    likelihood = round3 (fdiv (clamp01 (base (h ! s))) total),
                    sug_reason = reason (h ! s) @ matched_suffix prefix\<rparr>) ss)"

definition sort_desc :: "Suggestion list \<Rightarrow> Suggestion list" where
  \<comment> \<open>line 155: a stable sort, largest likelihood first\<close>
  "sort_desc xs = sort_key (\<lambda>x. - likelihood x) xs"

definition get_prefix :: "string option \<Rightarrow> string option" where
  \<comment> \<open>lines 116-119\<close>
  "get_prefix fc =
     (case fc of
        None \<Rightarrow> None
      | Some c \<Rightarrow> if c = [] then None else Some (normalize_prefix c))"

definition seed_suggestions :: "heap \<Rightarrow> string option \<Rightarrow> addr list \<times> heap" where
  \<comment> \<open>lines 114-130: the working list, and the store after the fallback dictionaries
      were built\<close>
  "seed_suggestions h prefix =
     (let matched = (case prefix of None \<Rightarrow> [] | Some p \<Rightarrow> seed FAULT_CODE_MAP p)
      in if matched = []
         then ([length h, length h + 1, length h + 2], h @ fallback_entries)
         else (matched, h))"

definition diagnose_top :: "heap \<Rightarrow> string option \<Rightarrow> string \<Rightarrow> py_error + (Suggestion list \<times> heap)" where
  \<comment> \<open>lines 114-156: the value of \<open>top\<close> and the object store afterwards\<close>
  "diagnose_top h fc descr =
     (let prefix = get_prefix fc;
          (ss, h1) = seed_suggestions h prefix;
          desc = lower descr
      in case apply_hints KEYWORD_HINTS desc ss h1 of
           Inl e \<Rightarrow> Inl e
         | Inr h2 \<Rightarrow> Inr (take 5 (sort_desc (rank h2 ss prefix)), h2))"

section \<open>The endpoints\<close>

definition validate :: "Suggestion list \<Rightarrow> py_error + Suggestion list" where
  \<comment> \<open>line 170, \<open>Suggestion(**s)\<close>: the field constraint \<open>ge=0, le=1\<close> of line 29\<close>
  "validate tops =
     (if list_all (\<lambda>s. 0 \<le> likelihood s \<and> likelihood s \<le> 1) tops then Inr tops
      else Inl ValidationError)"

definition diagnose ::
  "(string \<Rightarrow> carissue \<Rightarrow> py_error + string) \<Rightarrow> heap \<Rightarrow> DiagnoseRequest
     \<Rightarrow> py_error + (DiagnoseResponse \<times> heap)" where
  \<comment> \<open>lines 112-170; \<open>create_document\<close> is the persistence gateway\<close>
  "diagnose create_document h req =
     (case diagnose_top h (fault_code req) (description req) of
        Inl e \<Rightarrow> Inl e
      | Inr (tops, h') \<Rightarrow>
          let doc_id =
                (case create_document ''carissue''
                        \<lparr>doc_name = name req, doc_model = model req,
                         doc_fault_code = fault_code req, doc_description = description req,
                         doc_suggestions = tops\<rparr> of
                   Inl e \<Rightarrow> None
                 | Inr i \<Rightarrow> Some i)
          in (case validate tops of
                Inl e \<Rightarrow> Inl e
              | Inr sugs \<Rightarrow> Inr (\<lparr>suggestions = sugs, resp_id = doc_id\<rparr>, h')))"

fun convert_ids :: "('d \<Rightarrow> py_error + 'd) \<Rightarrow> 'd list \<Rightarrow> py_error + 'd list" where
  \<comment> \<open>lines 178-180: the loop that turns each \<open>_id\<close> into a string\<close>
  "convert_ids conv [] = Inr []"
| "convert_ids conv (it # its) =
     (case conv it of
        Inl e \<Rightarrow> Inl e
      | Inr it' \<Rightarrow> (case convert_ids conv its of Inl e \<Rightarrow> Inl e | Inr its' \<Rightarrow> Inr (it' # its')))"

definition history ::
  "(string \<Rightarrow> int \<Rightarrow> py_error + 'd list) \<Rightarrow> ('d \<Rightarrow> py_error + 'd) \<Rightarrow> int \<Rightarrow> 'd list" where
  \<comment> \<open>lines 174-183; the value of the key \<open>items\<close> of the response\<close>
  "history get_documents conv limit =
     (case get_documents ''carissue'' limit of
        Inl e \<Rightarrow> []
      | Inr items \<Rightarrow> (case convert_ids conv items of Inl e \<Rightarrow> [] | Inr items' \<Rightarrow> items'))"

section \<open>Notions used to state the properties\<close>

definition hints_ok :: "hint list \<Rightarrow> bool" where
  \<comment> \<open>the target part of every hint has a first word, so that line 137 cannot raise\<close>
  "hints_ok hints = list_all (\<lambda>hnt. \<not> isl (split_first (lower (hint_part hnt)))) hints"

definition hint_applies :: "string \<Rightarrow> hint \<Rightarrow> entry \<Rightarrow> bool" where
  \<comment> \<open>the hint boosts the candidate: one of its keywords occurs in the (lowercased)
      description, and the part name of the candidate starts, case-insensitively, with
      the first word of the target part of the hint\<close>
  "hint_applies desc hnt e =
     (list_ex (\<lambda>k. contains k desc) (hint_keywords hnt) \<and>
      (case split_first (lower (hint_part hnt)) of
         Inl err \<Rightarrow> False
       | Inr w \<Rightarrow> startswith (lower (part e)) w))"

definition boosted :: "hint list \<Rightarrow> string \<Rightarrow> entry \<Rightarrow> entry" where
  \<comment> \<open>the candidate after the boosts of all applicable hints were added, in the order of
      the hints\<close>
  "boosted hints desc e =
     foldl (\<lambda>e' hnt. if hint_applies desc hnt e'
                      then e'\<lparr>base := fadd (base e') (boost hnt)\<rparr> else e') e hints"

definition wf_heap :: "heap \<Rightarrow> bool" where
  \<comment> \<open>the store holds the thirteen dictionaries of the table at their addresses, and every
      base score is a float\<close>
  "wf_heap h = (13 \<le> length h \<and> list_all (\<lambda>e. is_double (base e)) h)"

definition rank_entries :: "entry list \<Rightarrow> string option \<Rightarrow> Suggestion list" where
  \<comment> \<open>\<open>rank\<close> on the dictionaries themselves instead of their addresses\<close>
  "rank_entries es prefix =
     (let total0 = fsum (map (\<lambda>e. clamp01 (base e)) es);
          total = (if total0 = 0 then 1 else total0)
      in map (\<lambda>e. \<lparr>sug_part = part e,
                    likelihood = round3 (fdiv (clamp01 (base e)) total),
                    sug_reason = reason e @ matched_suffix prefix\<rparr>) es)"

named_theorems rnd_facts

section \<open>Rounding to the nearest float\<close>

text \<open>
  The exponent computed by \<open>fl_exp\<close> is the binade of its argument, hence \<open>rnd\<close> is
  monotone, idempotent, exact on powers of two, and off by at most a relative error of
  \<open>2 powi (- 53)\<close>.
\<close>

lemma bitlen_pos: "0 < p \<Longrightarrow> 1 \<le> bitlen p"
  by (simp add: bitlen_alt_def)

lemma bitlen_powi_bounds:
  assumes "0 < p"
  shows "(2::rat) powi (bitlen p - 1) \<le> of_int p" "(of_int p :: rat) < 2 powi (bitlen p)"
proof -
  from bitlen_pos[OF assms] have b: "0 \<le> bitlen p - 1" "0 \<le> bitlen p" by simp_all
  from bitlen_bounds[OF assms] have lo: "2 ^ nat (bitlen p - 1) \<le> p" and hi: "p < 2 ^ nat (bitlen p)"
    by simp_all
  from lo have "(of_int (2 ^ nat (bitlen p - 1)) :: rat) \<le> of_int p"
    by (simp only: of_int_le_iff)
  then show "(2::rat) powi (bitlen p - 1) \<le> of_int p"
    using b(1) by (simp add: power_int_nonneg_exp)
  from hi have "(of_int p :: rat) < of_int (2 ^ nat (bitlen p))"
    by (simp only: of_int_less_iff)
  then show "(of_int p :: rat) < 2 powi (bitlen p)"
    using b(2) by (simp add: power_int_nonneg_exp)
qed

lemma powi2_pos: "0 < (2::rat) powi e"
  by (simp add: zero_less_power_int)

lemma fl_exp_bounds:
  assumes "0 < x"
  shows "2 powi (fl_exp x) \<le> x \<and> x < 2 powi (fl_exp x + 1)"
proof -
  obtain p q where pq: "quotient_of x = (p, q)" by (cases "quotient_of x")
  then have q: "0 < q" by (rule quotient_of_denom_pos)
  from pq have x: "x = of_int p / of_int q" by (rule quotient_of_div)
  with assms q have p: "0 < p" by (simp add: zero_less_divide_iff)
  define bp where "bp = bitlen p"
  define bq where "bq = bitlen q"
  note P = bitlen_powi_bounds[OF p, folded bp_def]
  note Q = bitlen_powi_bounds[OF q, folded bq_def]
  have "x < 2 powi bp / 2 powi (bq - 1)"
    unfolding x using P(2) Q(1) p q powi2_pos[of "bq - 1"]
    by (intro frac_less) simp_all
  also have "\<dots> = 2 powi (bp - bq + 1)"
    by (simp add: power_int_diff[symmetric] algebra_simps)
  finally have hi: "x < 2 powi (bp - bq + 1)" .
  have "2 powi (bp - 1) / 2 powi bq < x"
    unfolding x using P(1) Q(2) p q powi2_pos[of "bp - 1"]
    by (intro frac_less2) simp_all
  moreover have "(2::rat) powi (bp - 1) / 2 powi bq = 2 powi (bp - bq - 1)"
    by (simp add: power_int_diff[symmetric] algebra_simps)
  ultimately have lo: "2 powi (bp - bq - 1) < x" by simp
  show ?thesis
  proof (cases "2 powi (bp - bq) \<le> x")
    case True
    then have "fl_exp x = bp - bq" by (simp add: fl_exp_def pq bp_def bq_def)
    with True hi show ?thesis by simp
  next
    case False
    then have "fl_exp x = bp - bq - 1" by (simp add: fl_exp_def pq bp_def bq_def)
    with False lo show ?thesis by simp
  qed
qed

lemma powi2_mono: "a \<le> b \<Longrightarrow> (2::rat) powi a \<le> 2 powi b"
  by (rule power_int_increasing) simp_all

lemma powi2_less_imp: "(2::rat) powi a < 2 powi b \<Longrightarrow> a < b"
  using powi2_mono[of b a] by (cases "a < b") simp_all

lemma fl_exp_unique:
  assumes "0 < x" "2 powi e \<le> x" "x < 2 powi (e + 1)"
  shows "fl_exp x = e"
proof -
  from fl_exp_bounds[OF assms(1)] have b: "2 powi (fl_exp x) \<le> x" "x < 2 powi (fl_exp x + 1)"
    by simp_all
  from assms(2) b(2) have "(2::rat) powi e < 2 powi (fl_exp x + 1)" by simp
  then have 1: "e < fl_exp x + 1" by (rule powi2_less_imp)
  from b(1) assms(3) have "(2::rat) powi (fl_exp x) < 2 powi (e + 1)" by simp
  then have "fl_exp x < e + 1" by (rule powi2_less_imp)
  with 1 show ?thesis by simp
qed


lemma rhe_floor: "\<lfloor>r\<rfloor> \<le> rhe r \<and> rhe r \<le> \<lfloor>r\<rfloor> + 1"
  by (simp add: rhe_def Let_def)

lemma rhe_err: "\<bar>of_int (rhe r) - r\<bar> \<le> 1/2"
proof -
  have "of_int \<lfloor>r\<rfloor> \<le> r" "r < of_int \<lfloor>r\<rfloor> + 1" by linarith+
  then show ?thesis by (auto simp: rhe_def Let_def)
qed

lemma rhe_of_int [simp]: "rhe (of_int n) = n"
  by (simp add: rhe_def)

lemma rhe_mono:
  assumes "r \<le> s"
  shows "rhe r \<le> rhe s"
proof (cases "\<lfloor>r\<rfloor> = \<lfloor>s\<rfloor>")
  case True
  with assms have "r - of_int \<lfloor>r\<rfloor> \<le> s - of_int \<lfloor>s\<rfloor>" by simp
  with True show ?thesis by (auto simp: rhe_def Let_def)
next
  case False
  with assms have "\<lfloor>r\<rfloor> < \<lfloor>s\<rfloor>" using floor_mono[OF assms] by simp
  with rhe_floor[of r] rhe_floor[of s] show ?thesis by simp
qed

lemma rnd_zero [simp]: "rnd 0 = 0"
  by (simp add: rnd_def)

lemma rnd_minus: "rnd (- x) = - rnd x"
  by (simp add: rnd_def Let_def)

lemma rnd_pos:
  assumes "0 < x" "2 powi e \<le> x" "x < 2 powi (e + 1)"
  shows "rnd x = of_int (rhe (x / 2 powi (e - 52))) * 2 powi (e - 52)"
  using assms fl_exp_unique[OF assms] by (simp add: rnd_def Let_def)

lemma rhe_numeral [simp]: "rhe (numeral n) = numeral n"
  using rhe_of_int[of "numeral n"] by simp

lemma powi2_split: "(2::rat) powi e = 4503599627370496 * 2 powi (e - 52)"
proof -
  have "(2::rat) powi 52 * 2 powi (e - 52) = 2 powi e"
    by (subst power_int_add[symmetric]) simp_all
  then show ?thesis by simp
qed

lemma powi2_split': "(2::rat) powi (e + 1) = 9007199254740992 * 2 powi (e - 52)"
proof -
  have "(2::rat) powi 53 * 2 powi (e - 52) = 2 powi (e + 1)"
    by (subst power_int_add[symmetric]) (simp_all add: add.commute)
  then show ?thesis by simp
qed

lemma rnd_mantissa:
  assumes "0 < x" "2 powi e \<le> x" "x < 2 powi (e + 1)"
  shows "4503599627370496 \<le> rhe (x / 2 powi (e - 52)) \<and>
         rhe (x / 2 powi (e - 52)) \<le> 9007199254740992"
proof -
  let ?u = "(2::rat) powi (e - 52)"
  have u: "0 < ?u" by (rule powi2_pos)
  from assms(2) have "4503599627370496 * ?u \<le> x" by (simp only: powi2_split[symmetric])
  then have "4503599627370496 \<le> x / ?u" using u by (simp add: pos_le_divide_eq)
  from rhe_mono[OF this] have lo: "4503599627370496 \<le> rhe (x / ?u)" by simp
  from assms(3) have "x \<le> 9007199254740992 * ?u" by (simp only: powi2_split'[symmetric])
  then have "x / ?u \<le> 9007199254740992" using u by (simp add: pos_divide_le_eq)
  from rhe_mono[OF this] have "rhe (x / ?u) \<le> 9007199254740992" by simp
  with lo show ?thesis by simp
qed

lemma rnd_binade:
  assumes "0 < x" "2 powi e \<le> x" "x < 2 powi (e + 1)"
  shows "2 powi e \<le> rnd x \<and> rnd x \<le> 2 powi (e + 1)"
proof -
  let ?u = "(2::rat) powi (e - 52)"
  let ?m = "rhe (x / ?u)"
  have u: "0 < ?u" by (rule powi2_pos)
  from rnd_mantissa[OF assms]
  have "(of_int 4503599627370496 :: rat) \<le> of_int ?m" "(of_int ?m :: rat) \<le> of_int 9007199254740992"
    by (simp_all only: of_int_le_iff)
  then have "4503599627370496 * ?u \<le> of_int ?m * ?u" "of_int ?m * ?u \<le> 9007199254740992 * ?u"
    using u by simp_all
  then show ?thesis
    by (simp only: rnd_pos[OF assms] powi2_split[symmetric] powi2_split'[symmetric])
qed

lemma rnd_mono_pos:
  assumes "0 < x" "x \<le> y"
  shows "rnd x \<le> rnd y"
proof -
  from assms have y: "0 < y" by simp
  define ex where "ex = fl_exp x"
  define ey where "ey = fl_exp y"
  from fl_exp_bounds[OF assms(1)] have bx: "2 powi ex \<le> x" "x < 2 powi (ex + 1)"
    by (simp_all add: ex_def)
  from fl_exp_bounds[OF y] have b_y: "2 powi ey \<le> y" "y < 2 powi (ey + 1)"
    by (simp_all add: ey_def)
  from bx(1) assms(2) b_y(2) have "(2::rat) powi ex < 2 powi (ey + 1)" by simp
  then have le: "ex \<le> ey" using powi2_less_imp[of ex "ey + 1"] by simp
  show ?thesis
  proof (cases "ex = ey")
    case True
    have "x / 2 powi (ex - 52) \<le> y / 2 powi (ex - 52)"
      using assms(2) powi2_pos[of "ex - 52"] by (simp add: divide_right_mono)
    from rhe_mono[OF this]
    have "(of_int (rhe (x / 2 powi (ex - 52))) :: rat) \<le> of_int (rhe (y / 2 powi (ex - 52)))"
      by (simp only: of_int_le_iff)
    then have "of_int (rhe (x / 2 powi (ex - 52))) * 2 powi (ex - 52)
               \<le> of_int (rhe (y / 2 powi (ex - 52))) * (2::rat) powi (ex - 52)"
      using powi2_pos[of "ex - 52"] by simp
    then show ?thesis
      using rnd_pos[OF assms(1) bx] rnd_pos[OF y b_y] True by simp
  next
    case False
    with le have "ex + 1 \<le> ey" by simp
    from powi2_mono[OF this] rnd_binade[OF assms(1) bx] rnd_binade[OF y b_y]
    show ?thesis by simp
  qed
qed

lemma rnd_nonneg: "0 \<le> x \<Longrightarrow> 0 \<le> rnd x"
proof (cases "x = 0")
  case True
  then show ?thesis by simp
next
  case False
  assume "0 \<le> x"
  with False have x: "0 < x" by simp
  from rnd_binade[OF x] fl_exp_bounds[OF x] powi2_pos[of "fl_exp x"]
  show ?thesis by (meson order.trans less_imp_le)
qed

lemma rnd_mono: "0 \<le> x \<Longrightarrow> x \<le> y \<Longrightarrow> rnd x \<le> rnd y"
  by (cases "x = 0") (simp_all add: rnd_nonneg rnd_mono_pos)

lemma rnd_one [simp]: "rnd 1 = 1"
proof -
  have "rnd 1 = of_int (rhe (1 / 2 powi (0 - 52))) * 2 powi (0 - 52)"
    by (rule rnd_pos) simp_all
  then show ?thesis by (simp add: power_int_minus_divide)
qed


lemma rhe_eval:
  assumes "of_int m - 1/2 < r" "r < of_int m + 1/2"
  shows "rhe r = m"
proof -
  have f: "of_int \<lfloor>r\<rfloor> \<le> r" "r < of_int \<lfloor>r\<rfloor> + 1" by linarith+
  from assms f have "\<lfloor>r\<rfloor> = m \<or> \<lfloor>r\<rfloor> = m - 1" by linarith
  then show ?thesis
  proof
    assume "\<lfloor>r\<rfloor> = m"
    with assms show ?thesis by (simp add: rhe_def Let_def)
  next
    assume "\<lfloor>r\<rfloor> = m - 1"
    with assms show ?thesis by (simp add: rhe_def Let_def)
  qed
qed

lemma rnd_eval:
  assumes "0 < x" "2 powi e \<le> x" "x < 2 powi (e + 1)"
    and "of_int m - 1/2 < x / 2 powi (e - 52)" "x / 2 powi (e - 52) < of_int m + 1/2"
    and "of_int m * 2 powi (e - 52) = y"
  shows "rnd x = y"
  using rnd_pos[OF assms(1-3)] rhe_eval[OF assms(4,5)] assms(6) by simp

lemma rnd_pow2 [simp]: "rnd (2 powi e) = 2 powi e"
proof -
  have lt: "(2::rat) powi e < 2 powi (e + 1)"
    by (rule power_int_strict_increasing) simp_all
  have "2 powi e / (2::rat) powi (e - 52) = 4503599627370496"
    using powi2_pos[of "e - 52"] by (subst powi2_split[of e]) simp
  then have "rhe (2 powi e / (2::rat) powi (e - 52)) = 4503599627370496" by simp
  then have "rnd (2 powi e) = 4503599627370496 * 2 powi (e - 52)"
    using rnd_pos[of "2 powi e" e] powi2_pos[of e] lt by simp
  then show ?thesis by (simp only: powi2_split[symmetric])
qed

lemma rnd_mant:
  assumes "4503599627370496 \<le> m" "m < 9007199254740992"
  shows "rnd (of_int m * 2 powi k) = of_int m * 2 powi k"
proof -
  let ?x = "(of_int m :: rat) * 2 powi k"
  have k: "0 < (2::rat) powi k" by (rule powi2_pos)
  from assms have m: "(4503599627370496::rat) \<le> of_int m" "(of_int m :: rat) < 9007199254740992"
    by linarith+
  then have pos: "0 < ?x" using k by (simp add: zero_less_mult_iff)
  have lo: "2 powi (k + 52) \<le> ?x"
    using m(1) k by (subst powi2_split[of "k + 52"]) simp
  have hi: "?x < 2 powi (k + 52 + 1)"
    using m(2) k by (subst powi2_split'[of "k + 52"]) simp
  have "?x / 2 powi (k + 52 - 52) = of_int m" using k by simp
  then have "rhe (?x / 2 powi (k + 52 - 52)) = m" by simp
  with rnd_pos[OF pos lo hi] show ?thesis by simp
qed

lemma rnd_idem_pos:
  assumes "0 < x"
  shows "rnd (rnd x) = rnd x"
proof -
  define e where "e = fl_exp x"
  from fl_exp_bounds[OF assms] have b: "2 powi e \<le> x" "x < 2 powi (e + 1)"
    by (simp_all add: e_def)
  let ?m = "rhe (x / 2 powi (e - 52))"
  have r: "rnd x = of_int ?m * 2 powi (e - 52)" by (rule rnd_pos[OF assms b])
  from rnd_mantissa[OF assms b] have m: "4503599627370496 \<le> ?m" "?m \<le> 9007199254740992"
    by simp_all
  show ?thesis
  proof (cases "?m = 9007199254740992")
    case True
    with r have "rnd x = 2 powi (e + 1)" by (simp add: powi2_split'[of e])
    then show ?thesis by simp
  next
    case False
    with m have "?m < 9007199254740992" by simp
    from rnd_mant[OF m(1) this] r show ?thesis by simp
  qed
qed

lemma rnd_idem [simp]: "rnd (rnd x) = rnd x"
proof -
  consider "x = 0" | "0 < x" | "0 < - x" by linarith
  then show ?thesis
  proof cases
    case 1
    then show ?thesis by simp
  next
    case 2
    then show ?thesis by (rule rnd_idem_pos)
  next
    case 3
    from rnd_idem_pos[OF this] have "rnd (- rnd x) = - rnd x" by (simp add: rnd_minus)
    then show ?thesis by (simp add: rnd_minus)
  qed
qed

lemma rnd_err_pos:
  assumes "0 < x"
  shows "\<bar>rnd x - x\<bar> \<le> x / 9007199254740992"
proof -
  define e where "e = fl_exp x"
  from fl_exp_bounds[OF assms] have b: "2 powi e \<le> x" "x < 2 powi (e + 1)"
    by (simp_all add: e_def)
  define u where "u = (2::rat) powi (e - 52)"
  have u: "0 < u" by (simp add: u_def powi2_pos)
  define m where "m = rhe (x / u)"
  have r: "rnd x = of_int m * u" unfolding m_def u_def by (rule rnd_pos[OF assms b])
  from rhe_err[of "x / u"] have "\<bar>of_int m - x / u\<bar> \<le> 1/2" by (simp add: m_def)
  then have "\<bar>of_int m - x / u\<bar> * u \<le> 1/2 * u" using u by (simp only: mult_le_cancel_right) simp
  moreover have "\<bar>of_int m - x / u\<bar> * u = \<bar>of_int m * u - x\<bar>"
  proof -
    have "(of_int m - x / u) * u = of_int m * u - x" using u by (simp add: field_simps)
    then have "\<bar>of_int m * u - x\<bar> = \<bar>of_int m - x / u\<bar> * \<bar>u\<bar>"
      by (simp only: abs_mult[symmetric])
    with u show ?thesis by simp
  qed
  ultimately have e1: "\<bar>rnd x - x\<bar> \<le> u / 2" by (simp add: r)
  from b(1) have "4503599627370496 * u \<le> x" unfolding u_def by (simp only: powi2_split[symmetric])
  then have "u / 2 \<le> x / 9007199254740992" by simp
  with e1 show ?thesis by simp
qed

lemma is_double_rnd [simp]: "is_double (rnd x)"
  by (simp add: is_double_def)

lemma is_double_0 [simp]: "is_double 0"
  by (simp add: is_double_def)

lemma is_double_1 [simp]: "is_double 1"
  by (simp add: is_double_def)

lemma is_double_clamp01: "is_double x \<Longrightarrow> is_double (clamp01 x)"
  by (auto simp: clamp01_def max_def min_def)

lemma clamp01_range: "0 \<le> clamp01 x \<and> clamp01 x \<le> 1"
  by (auto simp: clamp01_def max_def min_def)

lemma foldl_fadd_ge:
  assumes "is_double acc" "0 \<le> acc" "\<forall>c\<in>set cs. is_double c \<and> 0 \<le> c"
  shows "acc \<le> foldl fadd acc cs \<and> (\<forall>c\<in>set cs. c \<le> foldl fadd acc cs)"
  using assms
proof (induction cs arbitrary: acc)
  case Nil
  then show ?case by simp
next
  case (Cons c cs)
  then have c: "is_double c" "0 \<le> c" by simp_all
  let ?a = "fadd acc c"
  have d: "is_double ?a" by (simp add: fadd_def)
  from rnd_mono[of acc "acc + c"] Cons.prems(1,2) c(2) have a1: "acc \<le> ?a"
    by (simp add: fadd_def is_double_def)
  from rnd_mono[of c "acc + c"] Cons.prems(2) c have a2: "c \<le> ?a"
    by (simp add: fadd_def is_double_def)
  from a1 Cons.prems(2) have nn: "0 \<le> ?a" by simp
  from Cons.prems(3) have rest: "\<forall>c\<in>set cs. is_double c \<and> 0 \<le> c" by simp
  from Cons.IH[OF d nn rest] a1 a2 show ?case by auto
qed

lemma fsum_ge:
  assumes "\<forall>c\<in>set cs. is_double c \<and> 0 \<le> c"
  shows "0 \<le> fsum cs \<and> (\<forall>c\<in>set cs. c \<le> fsum cs)"
  using foldl_fadd_ge[of 0 cs] assms by (simp add: fsum_def)

lemma fdiv_unit:
  assumes "0 \<le> c" "c \<le> t" "0 < t"
  shows "0 \<le> fdiv c t \<and> fdiv c t \<le> 1"
proof -
  from assms have "0 \<le> c / t" "c / t \<le> 1" by simp_all
  with rnd_nonneg[of "c / t"] rnd_mono[of "c / t" 1] show ?thesis by (simp add: fdiv_def)
qed

lemma round3_unit:
  assumes "0 \<le> x" "x \<le> 1"
  shows "0 \<le> round3 x \<and> round3 x \<le> 1"
proof -
  from assms have "0 \<le> x * 1000" "x * 1000 \<le> 1000" by simp_all
  with rhe_mono[of 0 "x * 1000"] rhe_mono[of "x * 1000" 1000] rhe_of_int[of 0]
  have "0 \<le> rhe (x * 1000)" "rhe (x * 1000) \<le> 1000" by simp_all
  then have "(0::rat) \<le> of_int (rhe (x * 1000)) / 1000" "(of_int (rhe (x * 1000)) :: rat) / 1000 \<le> 1"
    by simp_all
  with rnd_nonneg[of "of_int (rhe (x * 1000)) / 1000"] rnd_mono[of "of_int (rhe (x * 1000)) / 1000" 1]
  show ?thesis by (simp add: round3_def)
qed

lemma rank_entries_unit:
  assumes "\<forall>e\<in>set es. is_double (base e)"
  shows "\<forall>s\<in>set (rank_entries es p). 0 \<le> likelihood s \<and> likelihood s \<le> 1"
proof -
  let ?cs = "map (\<lambda>e. clamp01 (base e)) es"
  define total where "total = (if fsum ?cs = 0 then 1 else fsum ?cs)"
  from assms have "\<forall>c\<in>set ?cs. is_double c \<and> 0 \<le> c"
    by (auto simp: is_double_clamp01 clamp01_range)
  from fsum_ge[OF this] have nn: "0 \<le> fsum ?cs" and ge: "\<forall>e\<in>set es. clamp01 (base e) \<le> fsum ?cs"
    by simp_all
  have pos: "0 < total" using nn by (simp add: total_def)
  have le: "clamp01 (base e) \<le> total" if "e \<in> set es" for e
  proof (cases "fsum ?cs = 0")
    case True
    then show ?thesis using clamp01_range[of "base e"] by (simp add: total_def)
  next
    case False
    with ge that show ?thesis by (simp add: total_def)
  qed
  have "0 \<le> round3 (fdiv (clamp01 (base e)) total) \<and> round3 (fdiv (clamp01 (base e)) total) \<le> 1"
    if "e \<in> set es" for e
  proof -
    from fdiv_unit[OF _ le[OF that] pos] clamp01_range[of "base e"]
    have "0 \<le> fdiv (clamp01 (base e)) total \<and> fdiv (clamp01 (base e)) total \<le> 1" by simp
    then show ?thesis using round3_unit by simp
  qed
  then show ?thesis by (auto simp: rank_entries_def Let_def total_def)
qed

lemma sorted_sort_desc: "sorted_wrt (\<lambda>a b. b \<le> a) (map likelihood (sort_desc xs))"
proof -
  have "sorted (map (\<lambda>x. - likelihood x) (sort_key (\<lambda>x. - likelihood x) xs))"
    by (rule sorted_sort_key)
  then show ?thesis by (simp add: sort_desc_def sorted_wrt_map)
qed

subsection \<open>The roundings of the examples\<close>

lemma rhe_tie:
  assumes "r = of_int k + 1/2"
  shows "rhe r = (if even k then k else k + 1)"
proof -
  have "\<lfloor>r\<rfloor> = k" unfolding assms by linarith
  then show ?thesis by (simp add: rhe_def Let_def assms)
qed

lemma rnd_eval_tie:
  assumes "0 < x" "2 powi e \<le> x" "x < 2 powi (e + 1)"
    and "x / 2 powi (e - 52) = of_int k + 1/2" "(if even k then k else k + 1) = m"
    and "of_int m * 2 powi (e - 52) = y"
  shows "rnd x = y"
  using rnd_pos[OF assms(1-3)] rhe_tie[OF assms(4)] assms(5,6) by simp

lemma rnd_fact_1 [rnd_facts]: "rnd (3 / 5) = 5404319552844595 / 9007199254740992"
  by (rule rnd_eval[where e = "- 1" and m = 5404319552844595]) simp_all

lemma rnd_fact_2 [rnd_facts]: "rnd (1 / 2) = 1 / 2"
  by (rule rnd_eval[where e = "- 1" and m = 4503599627370496]) simp_all

lemma rnd_fact_3 [rnd_facts]: "rnd (7 / 20) = 3152519739159347 / 9007199254740992"
  by (rule rnd_eval[where e = "- 2" and m = 6305039478318694]) simp_all

lemma rnd_fact_4 [rnd_facts]: "rnd (1 / 4) = 1 / 4"
  by (rule rnd_eval[where e = "- 2" and m = 4503599627370496]) simp_all

lemma rnd_fact_5 [rnd_facts]: "rnd (9 / 20) = 8106479329266893 / 18014398509481984"
  by (rule rnd_eval[where e = "- 2" and m = 8106479329266893]) simp_all

lemma rnd_fact_6 [rnd_facts]: "rnd (2 / 5) = 3602879701896397 / 9007199254740992"
  by (rule rnd_eval[where e = "- 2" and m = 7205759403792794]) simp_all

lemma rnd_fact_7 [rnd_facts]: "rnd (3 / 10) = 5404319552844595 / 18014398509481984"
  by (rule rnd_eval[where e = "- 2" and m = 5404319552844595]) simp_all

lemma rnd_fact_8 [rnd_facts]: "rnd (1 / 5) = 3602879701896397 / 18014398509481984"
  by (rule rnd_eval[where e = "- 3" and m = 7205759403792794]) simp_all

lemma rnd_fact_9 [rnd_facts]: "rnd (9 / 50) = 3242591731706757 / 18014398509481984"
  by (rule rnd_eval[where e = "- 3" and m = 6485183463413514]) simp_all

lemma rnd_fact_10 [rnd_facts]: "rnd (3 / 20) = 5404319552844595 / 36028797018963968"
  by (rule rnd_eval[where e = "- 3" and m = 5404319552844595]) simp_all

lemma rnd_fact_11 [rnd_facts]: "rnd (3 / 25) = 1080863910568919 / 9007199254740992"
  by (rule rnd_eval[where e = "- 4" and m = 8646911284551352]) simp_all

lemma rnd_fact_12 [rnd_facts]: "rnd (27021597764222975 / 36028797018963968) = 3 / 4"
  by (rule rnd_eval[where e = "- 1" and m = 6755399441055744]) simp_all

lemma rnd_fact_13 [rnd_facts]: "rnd (32425917317067571 / 36028797018963968) = 8106479329266893 / 9007199254740992"
  by (rule rnd_eval[where e = "- 1" and m = 8106479329266893]) simp_all

lemma rnd_fact_14 [rnd_facts]: "rnd (8106479329266893 / 18014398509481984) = 8106479329266893 / 18014398509481984"
  by (rule rnd_eval[where e = "- 2" and m = 8106479329266893]) simp_all

lemma rnd_fact_15 [rnd_facts]: "rnd (5674535530486825 / 9007199254740992) = 5674535530486825 / 9007199254740992"
  by (rule rnd_eval[where e = "- 1" and m = 5674535530486825]) simp_all

lemma rnd_fact_16 [rnd_facts]: "rnd (2251799813685248 / 5674535530486825) = 7148570837096025 / 18014398509481984"
  by (rule rnd_eval[where e = "- 2" and m = 7148570837096025]) simp_all

lemma rnd_fact_17 [rnd_facts]: "rnd (397 / 1000) = 1787929052066087 / 4503599627370496"
  by (rule rnd_eval[where e = "- 2" and m = 7151716208264348]) simp_all

lemma rnd_fact_18 [rnd_facts]: "rnd (3602879701896397 / 11349071060973650) = 5718856669676821 / 18014398509481984"
  by (rule rnd_eval[where e = "- 2" and m = 5718856669676821]) simp_all

lemma rnd_fact_19 [rnd_facts]: "rnd (317 / 1000) = 5710564327505789 / 18014398509481984"
  by (rule rnd_eval[where e = "- 2" and m = 5710564327505789]) simp_all

lemma rnd_fact_20 [rnd_facts]: "rnd (3242591731706757 / 11349071060973650) = 2573485501354569 / 9007199254740992"
  by (rule rnd_eval[where e = "- 2" and m = 5146971002709138]) simp_all

lemma rnd_fact_21 [rnd_facts]: "rnd (143 / 500) = 5152117973711847 / 18014398509481984"
  by (rule rnd_eval[where e = "- 2" and m = 5152117973711847]) simp_all

lemma rnd_fact_22 [rnd_facts]: "rnd (5404319552844595 / 9007199254740992) = 5404319552844595 / 9007199254740992"
  by (rule rnd_eval[where e = "- 1" and m = 5404319552844595]) simp_all

lemma rnd_fact_23 [rnd_facts]: "rnd (9907919180215091 / 9007199254740992) = 2476979795053773 / 2251799813685248"
  by (rule rnd_eval_tie[where e = "0" and k = 4953959590107545 and m = 4953959590107546]) simp_all

lemma rnd_fact_24 [rnd_facts]: "rnd (13060438919374439 / 9007199254740992) = 1632554864921805 / 1125899906842624"
  by (rule rnd_eval_tie[where e = "0" and k = 6530219459687219 and m = 6530219459687220]) simp_all

lemma rnd_fact_25 [rnd_facts]: "rnd (1914029841632461 / 1125899906842624) = 1914029841632461 / 1125899906842624"
  by (rule rnd_eval[where e = "0" and m = 7656119366529844]) simp_all

lemma rnd_fact_26 [rnd_facts]: "rnd (5404319552844595 / 15312238733059688) = 3179011501673291 / 9007199254740992"
  by (rule rnd_eval[where e = "- 2" and m = 6358023003346582]) simp_all

lemma rnd_fact_27 [rnd_facts]: "rnd (353 / 1000) = 1589770668461785 / 4503599627370496"
  by (rule rnd_eval[where e = "- 2" and m = 6359082673847140]) simp_all

lemma rnd_fact_28 [rnd_facts]: "rnd (562949953421312 / 1914029841632461) = 2649176251394409 / 9007199254740992"
  by (rule rnd_eval[where e = "- 2" and m = 5298352502788818]) simp_all

lemma rnd_fact_29 [rnd_facts]: "rnd (147 / 500) = 5296233161787703 / 18014398509481984"
  by (rule rnd_eval[where e = "- 2" and m = 5296233161787703]) simp_all

lemma rnd_fact_30 [rnd_facts]: "rnd (3152519739159347 / 15312238733059688) = 7417693503904345 / 36028797018963968"
  by (rule rnd_eval[where e = "- 3" and m = 7417693503904345]) simp_all

lemma rnd_fact_31 [rnd_facts]: "rnd (103 / 500) = 7421932185906577 / 36028797018963968"
  by (rule rnd_eval[where e = "- 3" and m = 7421932185906577]) simp_all

lemma rnd_fact_32 [rnd_facts]: "rnd (281474976710656 / 1914029841632461) = 2649176251394409 / 18014398509481984"
  by (rule rnd_eval[where e = "- 3" and m = 5298352502788818]) simp_all

lemma rnd_fact_33 [rnd_facts]: "rnd (147 / 1000) = 5296233161787703 / 36028797018963968"
  by (rule rnd_eval[where e = "- 3" and m = 5296233161787703]) simp_all

lemma rnd_fact_34 [rnd_facts]: "rnd (3 / 4) = 3 / 4"
  by (rule rnd_eval[where e = "- 1" and m = 6755399441055744]) simp_all

lemma rnd_fact_35 [rnd_facts]: "rnd (5 / 4) = 5 / 4"
  by (rule rnd_eval[where e = "0" and m = 5629499534213120]) simp_all

lemma rnd_fact_36 [rnd_facts]: "rnd (14411518807585587 / 9007199254740992) = 3602879701896397 / 2251799813685248"
  by (rule rnd_eval_tie[where e = "0" and k = 7205759403792793 and m = 7205759403792794]) simp_all

lemma rnd_fact_37 [rnd_facts]: "rnd (4165829655317709 / 2251799813685248) = 4165829655317709 / 2251799813685248"
  by (rule rnd_eval[where e = "0" and m = 8331659310635418]) simp_all

lemma rnd_fact_38 [rnd_facts]: "rnd (562949953421312 / 1388609885105903) = 3651567265435537 / 9007199254740992"
  by (rule rnd_eval[where e = "- 2" and m = 7303134530871074]) simp_all

lemma rnd_fact_39 [rnd_facts]: "rnd (81 / 200) = 1823957849085051 / 4503599627370496"
  by (rule rnd_eval[where e = "- 2" and m = 7295831396340204]) simp_all

lemma rnd_fact_40 [rnd_facts]: "rnd (1125899906842624 / 4165829655317709) = 4868756353914049 / 18014398509481984"
  by (rule rnd_eval[where e = "- 2" and m = 4868756353914049]) simp_all

lemma rnd_fact_41 [rnd_facts]: "rnd (27 / 100) = 607985949695017 / 2251799813685248"
  by (rule rnd_eval[where e = "- 2" and m = 4863887597560136]) simp_all

lemma rnd_fact_42 [rnd_facts]: "rnd (3152519739159347 / 16663318621270836) = 6816258895479669 / 36028797018963968"
  by (rule rnd_eval[where e = "- 3" and m = 6816258895479669]) simp_all

lemma rnd_fact_43 [rnd_facts]: "rnd (189 / 1000) = 3404721318292095 / 18014398509481984"
  by (rule rnd_eval[where e = "- 3" and m = 6809442636584190]) simp_all

lemma rnd_fact_44 [rnd_facts]: "rnd (562949953421312 / 4165829655317709) = 4868756353914049 / 36028797018963968"
  by (rule rnd_eval[where e = "- 3" and m = 4868756353914049]) simp_all

lemma rnd_fact_45 [rnd_facts]: "rnd (27 / 200) = 607985949695017 / 4503599627370496"
  by (rule rnd_eval[where e = "- 3" and m = 4863887597560136]) simp_all

lemma rnd_fact_46 [rnd_facts]: "rnd (8106479329266893 / 9007199254740992) = 8106479329266893 / 9007199254740992"
  by (rule rnd_eval[where e = "- 1" and m = 8106479329266893]) simp_all

lemma rnd_fact_47 [rnd_facts]: "rnd (12610078956637389 / 9007199254740992) = 3152519739159347 / 2251799813685248"
  by (rule rnd_eval_tie[where e = "0" and k = 6305039478318694 and m = 6305039478318694]) simp_all

lemma rnd_fact_48 [rnd_facts]: "rnd (15762598695796735 / 9007199254740992) = 7 / 4"
  by (rule rnd_eval_tie[where e = "0" and k = 7881299347898367 and m = 7881299347898368]) simp_all

lemma rnd_fact_49 [rnd_facts]: "rnd (2) = 2"
  by (rule rnd_eval[where e = "1" and m = 4503599627370496]) simp_all

lemma rnd_fact_50 [rnd_facts]: "rnd (3152519739159347 / 18014398509481984) = 3152519739159347 / 18014398509481984"
  by (rule rnd_eval[where e = "- 3" and m = 6305039478318694]) simp_all

lemma rnd_fact_51 [rnd_facts]: "rnd (7 / 40) = 3152519739159347 / 18014398509481984"
  by (rule rnd_eval[where e = "- 3" and m = 6305039478318694]) simp_all

lemma rnd_fact_52 [rnd_facts]: "rnd (1 / 8) = 1 / 8"
  by (rule rnd_eval[where e = "- 3" and m = 4503599627370496]) simp_all

lemma rnd_fact_53 [rnd_facts]: "rnd (36 / 125) = 5188146770730811 / 18014398509481984"
  by (rule rnd_eval[where e = "- 2" and m = 5188146770730811]) simp_all

lemma rhe_fact_1 [rnd_facts]: "rhe (893571354637003125 / 2251799813685248) = 397"
  by (rule rhe_eval) simp_all

lemma rhe_fact_2 [rnd_facts]: "rhe (714857083709602625 / 2251799813685248) = 317"
  by (rule rhe_eval) simp_all

lemma rhe_fact_3 [rnd_facts]: "rhe (321685687669321125 / 1125899906842624) = 286"
  by (rule rhe_eval) simp_all

lemma rhe_fact_4 [rnd_facts]: "rhe (397376437709161375 / 1125899906842624) = 353"
  by (rule rhe_eval) simp_all

lemma rhe_fact_5 [rnd_facts]: "rhe (331147031424301125 / 1125899906842624) = 294"
  by (rule rhe_eval) simp_all

lemma rhe_fact_6 [rnd_facts]: "rhe (927211687988043125 / 4503599627370496) = 206"
  by (rule rhe_eval) simp_all

lemma rhe_fact_7 [rnd_facts]: "rhe (331147031424301125 / 2251799813685248) = 147"
  by (rule rhe_eval) simp_all

lemma rhe_fact_8 [rnd_facts]: "rhe (456445908179442125 / 1125899906842624) = 405"
  by (rule rhe_eval) simp_all

lemma rhe_fact_9 [rnd_facts]: "rhe (608594544239256125 / 2251799813685248) = 270"
  by (rule rhe_eval) simp_all

lemma rhe_fact_10 [rnd_facts]: "rhe (852032361934958625 / 4503599627370496) = 189"
  by (rule rhe_eval) simp_all

lemma rhe_fact_11 [rnd_facts]: "rhe (608594544239256125 / 4503599627370496) = 135"
  by (rule rhe_eval) simp_all

lemma rhe_fact_12 [rnd_facts]: "rhe (1013309916158361625 / 2251799813685248) = 450"
  by (rule rhe_eval) simp_all

lemma rhe_fact_13 [rnd_facts]: "rhe (250) = 250"
  by (rule rhe_eval) simp_all

lemma rhe_fact_14 [rnd_facts]: "rhe (394064967394918375 / 2251799813685248) = 175"
  by (rule rhe_eval) simp_all

lemma rhe_fact_15 [rnd_facts]: "rhe (125) = 125"
  by (rule rhe_eval) simp_all

section \<open>Structure of a call\<close>

lemma upd_base_part: "map part (h[s := (h ! s)\<lparr>base := x\<rparr>]) = map part h"
  by (cases "s < length h") (simp_all add: map_update list_update_same_conv list_update_beyond)

lemma upd_base_reason: "map reason (h[s := (h ! s)\<lparr>base := x\<rparr>]) = map reason h"
  by (cases "s < length h") (simp_all add: map_update list_update_same_conv list_update_beyond)

lemma boost_matching_frame:
  "boost_matching h ss hnt = Inr h' \<Longrightarrow>
     length h' = length h \<and> map part h' = map part h \<and> map reason h' = map reason h
     \<and> (\<forall>a. a \<notin> set ss \<longrightarrow> h' ! a = h ! a)"
proof (induction ss arbitrary: h)
  case Nil
  then show ?case by simp
next
  case (Cons s ss)
  then obtain w where w: "split_first (lower (hint_part hnt)) = Inr w"
    by (auto split: sum.splits)
  let ?h1 = "if startswith (lower (part (h ! s))) w
             then h[s := (h ! s)\<lparr>base := fadd (base (h ! s)) (boost hnt)\<rparr>] else h"
  from Cons.prems w have "boost_matching ?h1 ss hnt = Inr h'" by simp
  from Cons.IH[OF this] show ?case
    by (auto simp: upd_base_part upd_base_reason)
qed

lemma boost_matching_total:
  "split_first (lower (hint_part hnt)) = Inr w \<Longrightarrow> \<exists>h'. boost_matching h ss hnt = Inr h'"
  by (induction ss arbitrary: h) simp_all

lemma apply_hints_frame:
  "apply_hints hints desc ss h = Inr h' \<Longrightarrow>
     length h' = length h \<and> map part h' = map part h \<and> map reason h' = map reason h
     \<and> (\<forall>a. a \<notin> set ss \<longrightarrow> h' ! a = h ! a)"
proof (induction hints arbitrary: h)
  case Nil
  then show ?case by simp
next
  case (Cons hnt hints)
  show ?case
  proof (cases "list_ex (\<lambda>k. contains k desc) (hint_keywords hnt)")
    case True
    with Cons.prems obtain h1 where h1: "boost_matching h ss hnt = Inr h1"
      and rest: "apply_hints hints desc ss h1 = Inr h'"
      by (auto split: sum.splits)
    from boost_matching_frame[OF h1] Cons.IH[OF rest] show ?thesis by simp
  next
    case False
    with Cons.prems have "apply_hints hints desc ss h = Inr h'" by simp
    from Cons.IH[OF this] show ?thesis .
  qed
qed

lemma KEYWORD_HINTS_ok: "hints_ok KEYWORD_HINTS"
  unfolding hints_ok_def by code_simp

lemma apply_hints_total:
  "hints_ok hints \<Longrightarrow> \<exists>h'. apply_hints hints desc ss h = Inr h'"
proof (induction hints arbitrary: h)
  case Nil
  then show ?case by simp
next
  case (Cons hnt hints)
  then have "\<not> isl (split_first (lower (hint_part hnt)))" and ok: "hints_ok hints"
    by (simp_all add: hints_ok_def)
  then obtain w where "split_first (lower (hint_part hnt)) = Inr w"
    by (cases "split_first (lower (hint_part hnt))") simp_all
  from boost_matching_total[OF this] obtain h1 where "boost_matching h ss hnt = Inr h1" by blast
  with Cons.IH[OF ok] show ?case by simp
qed

lemma length_normalize_prefix: "length (normalize_prefix c) \<le> 4"
  by (simp add: normalize_prefix_def Let_def)

lemma seed_cases:
  "seed FAULT_CODE_MAP p \<in> {[], [0, 1, 2, 3], [4, 5, 6, 7], [8, 9, 10], [11, 12]}"
  by (auto simp: FAULT_CODE_MAP_def startswith_def)

lemma get_prefix_empty: "get_prefix (Some []) = None"
  by (simp add: get_prefix_def)


lemma boost_matching_distinct:
  assumes "distinct ss" "\<forall>a\<in>set ss. a < length h"
    and w: "split_first (lower (hint_part hnt)) = Inr w"
    and res: "boost_matching h ss hnt = Inr h'"
  shows "\<forall>a\<in>set ss. h' ! a =
           (if startswith (lower (part (h ! a))) w
            then (h ! a)\<lparr>base := fadd (base (h ! a)) (boost hnt)\<rparr> else h ! a)"
  using assms(1,2) res
proof (induction ss arbitrary: h)
  case Nil
  then show ?case by simp
next
  case (Cons s ss)
  let ?f = "\<lambda>e. if startswith (lower (part e)) w
                 then e\<lparr>base := fadd (base e) (boost hnt)\<rparr> else e"
  let ?h1 = "if startswith (lower (part (h ! s))) w
             then h[s := (h ! s)\<lparr>base := fadd (base (h ! s)) (boost hnt)\<rparr>] else h"
  from Cons.prems w have r: "boost_matching ?h1 ss hnt = Inr h'" by simp
  have len: "length ?h1 = length h" by simp
  from Cons.prems have d: "distinct ss" and v: "\<forall>a\<in>set ss. a < length ?h1"
    and s: "s \<notin> set ss" "s < length h" by auto
  from Cons.IH[OF d v r]
  have ih: "\<forall>a\<in>set ss. h' ! a = ?f (?h1 ! a)" by simp
  have "h' ! s = ?h1 ! s" using boost_matching_frame[OF r] s(1) by simp
  also have "\<dots> = ?f (h ! s)" using s(2) by simp
  finally have hs: "h' ! s = ?f (h ! s)" .
  have "h' ! a = ?f (h ! a)" if "a \<in> set ss" for a
  proof -
    from that s(1) have "a \<noteq> s" by auto
    then have "?h1 ! a = h ! a" by simp
    with ih that show ?thesis by simp
  qed
  with hs show ?case by simp
qed

lemma apply_hints_distinct:
  assumes "distinct ss" "\<forall>a\<in>set ss. a < length h"
    and res: "apply_hints hints desc ss h = Inr h'"
  shows "\<forall>a\<in>set ss. h' ! a = boosted hints desc (h ! a)"
  using assms(2) res
proof (induction hints arbitrary: h)
  case Nil
  then show ?case by (simp add: boosted_def)
next
  case (Cons hnt hints)
  show ?case
  proof (cases "list_ex (\<lambda>k. contains k desc) (hint_keywords hnt)")
    case True
    with Cons.prems obtain h1 where h1: "boost_matching h ss hnt = Inr h1"
      and rest: "apply_hints hints desc ss h1 = Inr h'"
      by (auto split: sum.splits)
    have len: "length h1 = length h" using boost_matching_frame[OF h1] by simp
    have step: "\<forall>a\<in>set ss. h1 ! a =
        (if hint_applies desc hnt (h ! a)
         then (h ! a)\<lparr>base := fadd (base (h ! a)) (boost hnt)\<rparr> else h ! a)"
    proof (cases ss)
      case Nil
      then show ?thesis by simp
    next
      case (Cons s ss')
      with h1 obtain w where w: "split_first (lower (hint_part hnt)) = Inr w"
        by (auto split: sum.splits)
      from boost_matching_distinct[OF assms(1) Cons.prems(1) w h1] True w
      show ?thesis by (simp add: hint_applies_def)
    qed
    from Cons.prems(1) len have "\<forall>a\<in>set ss. a < length h1" by simp
    from Cons.IH[OF this rest] step show ?thesis
      by (simp add: boosted_def)
  next
    case False
    with Cons.prems have r: "apply_hints hints desc ss h = Inr h'" by simp
    from False have "\<not> hint_applies desc hnt e" for e by (simp add: hint_applies_def)
    with Cons.IH[OF Cons.prems(1) r] show ?thesis by (simp add: boosted_def)
  qed
qed

lemma rank_rank_entries: "rank h ss prefix = rank_entries (map (\<lambda>a. h ! a) ss) prefix"
  by (simp add: rank_def rank_entries_def Let_def comp_def)


lemma diagnose_top_unfold:
  assumes "seed_suggestions h (get_prefix fc) = (ss, h1)"
  shows "\<exists>h2. apply_hints KEYWORD_HINTS (lower d) ss h1 = Inr h2 \<and>
           diagnose_top h fc d = Inr (take 5 (sort_desc (rank h2 ss (get_prefix fc))), h2)"
proof -
  from apply_hints_total[OF KEYWORD_HINTS_ok]
  obtain h2 where "apply_hints KEYWORD_HINTS (lower d) ss h1 = Inr h2" by blast
  then show ?thesis by (simp add: diagnose_top_def Let_def assms)
qed

lemma seed_suggestions_length:
  assumes "seed_suggestions h (get_prefix fc) = (ss, h1)"
  shows "1 \<le> length ss \<and> length ss \<le> 4"
proof (cases "get_prefix fc")
  case None
  with assms show ?thesis by (auto simp: seed_suggestions_def)
next
  case (Some p)
  from seed_cases[of p] assms Some show ?thesis
    by (auto simp: seed_suggestions_def Let_def split: if_splits)
qed

lemma length_rank: "length (rank h ss prefix) = length ss"
  by (simp add: rank_def Let_def)

lemma length_sort_desc: "length (sort_desc xs) = length xs"
  by (simp add: sort_desc_def)

lemma mset_sort_desc: "mset (sort_desc xs) = mset xs"
  by (simp add: sort_desc_def)

lemma one_rule_matches:
  "length (filter (\<lambda>(key, items). startswith (normalize_prefix c) key) FAULT_CODE_MAP) \<le> 1"
  using length_normalize_prefix[of c]
  by (auto simp: FAULT_CODE_MAP_def startswith_def)

section \<open>The store invariant\<close>

lemma list_all_update: "list_all P h \<Longrightarrow> P v \<Longrightarrow> list_all P (h[s := v])"
  using set_update_subset_insert[of h s v] by (auto simp: list_all_iff)

lemma wf_heap_update:
  assumes "wf_heap h" "is_double (base e)"
  shows "wf_heap (h[s := e])"
  using assms list_all_update[of "\<lambda>e. is_double (base e)" h e s] by (simp add: wf_heap_def)

lemma boost_matching_wf:
  "wf_heap h \<Longrightarrow> boost_matching h ss hnt = Inr h' \<Longrightarrow> wf_heap h'"
proof (induction ss arbitrary: h)
  case Nil
  then show ?case by simp
next
  case (Cons s ss)
  from Cons.prems(2) obtain w where w: "split_first (lower (hint_part hnt)) = Inr w"
    by (cases "split_first (lower (hint_part hnt))") simp_all
  let ?h1 = "if startswith (lower (part (h ! s))) w
             then h[s := (h ! s)\<lparr>base := fadd (base (h ! s)) (boost hnt)\<rparr>] else h"
  from Cons.prems(2) w have r: "boost_matching ?h1 ss hnt = Inr h'" by simp
  have "wf_heap (h[s := (h ! s)\<lparr>base := fadd (base (h ! s)) (boost hnt)\<rparr>])"
    by (rule wf_heap_update[OF Cons.prems(1)]) (simp add: fadd_def)
  with Cons.prems(1) have "wf_heap ?h1" by simp
  from Cons.IH[OF this r] show ?case .
qed

lemma apply_hints_wf:
  "wf_heap h \<Longrightarrow> apply_hints hints desc ss h = Inr h' \<Longrightarrow> wf_heap h'"
proof (induction hints arbitrary: h)
  case Nil
  then show ?case by simp
next
  case (Cons hnt hints)
  show ?case
  proof (cases "list_ex (\<lambda>k. contains k desc) (hint_keywords hnt)")
    case True
    with Cons.prems(2) obtain h1 where h1: "boost_matching h ss hnt = Inr h1"
      and rest: "apply_hints hints desc ss h1 = Inr h'"
      by (cases "boost_matching h ss hnt") simp_all
    from Cons.IH[OF boost_matching_wf[OF Cons.prems(1) h1] rest] show ?thesis .
  next
    case False
    with Cons.prems(2) have "apply_hints hints desc ss h = Inr h'" by simp
    from Cons.IH[OF Cons.prems(1) this] show ?thesis .
  qed
qed

lemma wf_heap_init: "wf_heap init_heap"
  by (simp add: wf_heap_def init_heap_def py_float_def)

lemma seed_suggestions_wf:
  assumes "wf_heap h" "seed_suggestions h p = (ss, h1)"
  shows "wf_heap h1 \<and> distinct ss \<and> (\<forall>a\<in>set ss. a < length h1) \<and> ss \<noteq> []"
proof (cases "(case p of None \<Rightarrow> [] | Some q \<Rightarrow> seed FAULT_CODE_MAP q) = []")
  case True
  with assms(2) have "ss = [length h, length h + 1, length h + 2]" "h1 = h @ fallback_entries"
    by (simp_all add: seed_suggestions_def)
  with assms(1) show ?thesis
    by (simp add: wf_heap_def fallback_entries_def py_float_def)
next
  case False
  with assms(2) have e: "ss = (case p of None \<Rightarrow> [] | Some q \<Rightarrow> seed FAULT_CODE_MAP q)" "h1 = h"
    by (simp_all add: seed_suggestions_def)
  with False obtain q where "ss = seed FAULT_CODE_MAP q" by (cases p) simp_all
  with seed_cases[of q] False e assms(1) show ?thesis
    by (auto simp: wf_heap_def)
qed

section \<open>Evaluating a call\<close>

lemma diagnose_top_eval:
  assumes s: "seed_suggestions h (get_prefix fc) = (ss, h1)"
    and dist: "distinct ss" and valid: "\<forall>a\<in>set ss. a < length h1"
  shows "\<exists>h2. diagnose_top h fc d =
            Inr (take 5 (sort_desc (rank_entries
                   (map (\<lambda>a. boosted KEYWORD_HINTS (lower d) (h1 ! a)) ss) (get_prefix fc))), h2) \<and>
          (\<forall>a\<in>set ss. h2 ! a = boosted KEYWORD_HINTS (lower d) (h1 ! a)) \<and>
          (\<forall>a. a \<notin> set ss \<longrightarrow> h2 ! a = h1 ! a) \<and> length h2 = length h1"
proof -
  from diagnose_top_unfold[OF s] obtain h2 where
    a: "apply_hints KEYWORD_HINTS (lower d) ss h1 = Inr h2" and
    r: "diagnose_top h fc d = Inr (take 5 (sort_desc (rank h2 ss (get_prefix fc))), h2)"
    by blast
  from apply_hints_distinct[OF dist valid a]
  have pt: "\<forall>a\<in>set ss. h2 ! a = boosted KEYWORD_HINTS (lower d) (h1 ! a)" .
  then have "map (\<lambda>a. h2 ! a) ss = map (\<lambda>a. boosted KEYWORD_HINTS (lower d) (h1 ! a)) ss"
    by simp
  with r have "diagnose_top h fc d =
      Inr (take 5 (sort_desc (rank_entries
             (map (\<lambda>a. boosted KEYWORD_HINTS (lower d) (h1 ! a)) ss) (get_prefix fc))), h2)"
    by (simp add: rank_rank_entries)
  with pt apply_hints_frame[OF a] show ?thesis by blast
qed

lemma heap_unchanged:
  assumes "length h2 = length h1" "\<forall>a\<in>set ss. h2 ! a = h1 ! a"
    "\<forall>a. a \<notin> set ss \<longrightarrow> h2 ! a = h1 ! a"
  shows "h2 = h1"
proof (rule nth_equalityI)
  show "length h2 = length h1" by fact
  fix i
  show "h2 ! i = h1 ! i" using assms(2,3) by (cases "i \<in> set ss") simp_all
qed

lemma boosted_none:
  "list_all (\<lambda>hnt. \<not> list_ex (\<lambda>k. contains k desc) (hint_keywords hnt)) hints \<Longrightarrow>
     boosted hints desc e = e"
  unfolding boosted_def
  by (induction hints arbitrary: e) (simp_all add: hint_applies_def)

lemma no_keyword_car_makes_noise:
  "list_all (\<lambda>hnt. \<not> list_ex (\<lambda>k. contains k ''car makes noise'') (hint_keywords hnt)) KEYWORD_HINTS"
  by (simp add: KEYWORD_HINTS_def startswith_def)

lemma no_keyword_empty:
  "list_all (\<lambda>hnt. \<not> list_ex (\<lambda>k. contains k '''') (hint_keywords hnt)) KEYWORD_HINTS"
  by (simp add: KEYWORD_HINTS_def)

lemma split_first_spark: "split_first (lower ''Spark Plugs'') = Inr ''spark''"
  by code_simp

lemma boosted_rough_idle:
  "boosted KEYWORD_HINTS ''rough idle'' e =
     (if startswith (lower (part e)) ''spark''
      then e\<lparr>base := fadd (base e) (py_float (15/100))\<rparr> else e)"
  by (simp add: boosted_def KEYWORD_HINTS_def hint_applies_def split_first_spark
        startswith_def[of "_ # _"] startswith_def[of "[]"])

lemma lower_descriptions:
  "lower ''car makes noise'' = ''car makes noise''" "lower ''rough idle'' = ''rough idle''"
  "lower '''' = ''''"
  by code_simp+

lemma lower_parts:
  "lower ''Spark Plugs'' = ''spark plugs''" "lower ''Ignition Coils'' = ''ignition coils''"
  "lower ''Fuel Injectors'' = ''fuel injectors''" "lower ''Vacuum Leak'' = ''vacuum leak''"
  by code_simp+

lemma prefixes:
  "get_prefix (Some ''P0300'') = Some ''P030''" "get_prefix (Some '' '') = Some ''''"
  "get_prefix None = None"
  by code_simp+

lemma rank_fallback:
  "rank_entries fallback_entries None =
    [\<lparr>sug_part = ''Battery'', likelihood = py_float (397/1000), sug_reason = ''Common electrical issue''\<rparr>,
     \<lparr>sug_part = ''Alternator'', likelihood = py_float (317/1000), sug_reason = ''Charging system faults''\<rparr>,
     \<lparr>sug_part = ''Spark Plugs'', likelihood = py_float (286/1000), sug_reason = ''Wear item, causes misfires''\<rparr>]"
  by (simp add: rank_entries_def fallback_entries_def matched_suffix_def fsum_def fadd_def fdiv_def
        round3_def clamp01_def py_float_def Let_def rnd_facts)

lemma diagnose_top_shape:
  assumes "wf_heap h"
  shows "\<exists>tops h'. diagnose_top h fc d = Inr (tops, h') \<and>
           1 \<le> length tops \<and> length tops \<le> 5 \<and>
           list_all (\<lambda>s. 0 \<le> likelihood s \<and> likelihood s \<le> 1) tops \<and>
           sorted_wrt (\<lambda>a b. b \<le> a) (map likelihood tops) \<and>
           wf_heap h'"
proof -
  obtain ss h1 where s: "seed_suggestions h (get_prefix fc) = (ss, h1)"
    by (cases "seed_suggestions h (get_prefix fc)")
  from seed_suggestions_wf[OF assms s]
  have wf1: "wf_heap h1" and valid: "\<forall>a\<in>set ss. a < length h1" and ne: "ss \<noteq> []"
    by simp_all
  from diagnose_top_unfold[OF s] obtain h2 where
    a: "apply_hints KEYWORD_HINTS (lower d) ss h1 = Inr h2" and
    r: "diagnose_top h fc d = Inr (take 5 (sort_desc (rank h2 ss (get_prefix fc))), h2)"
    by blast
  let ?r = "rank h2 ss (get_prefix fc)"
  let ?tops = "take 5 (sort_desc ?r)"
  have wf2: "wf_heap h2" by (rule apply_hints_wf[OF wf1 a])
  from apply_hints_frame[OF a] have len: "length h2 = length h1" by simp
  have "length (sort_desc ?r) = length ss" by (simp add: length_sort_desc length_rank)
  with ne have l1: "1 \<le> length ?tops" and l2: "length ?tops \<le> 5"
    by (cases ss, simp_all)
  have "\<forall>e\<in>set (map (\<lambda>a. h2 ! a) ss). is_double (base e)"
    using wf2 valid len by (auto simp: wf_heap_def list_all_length)
  from rank_entries_unit[OF this]
  have "\<forall>s\<in>set ?r. 0 \<le> likelihood s \<and> likelihood s \<le> 1"
    by (simp only: rank_rank_entries)
  moreover have "set ?tops \<subseteq> set ?r"
    using set_take_subset[of 5 "sort_desc ?r"] by (simp add: sort_desc_def)
  ultimately have rng: "list_all (\<lambda>s. 0 \<le> likelihood s \<and> likelihood s \<le> 1) ?tops"
    by (auto simp: list_all_iff)
  have "sorted_wrt (\<lambda>a b. b \<le> a) (take 5 (map likelihood (sort_desc ?r)))"
    by (rule sorted_wrt_take[OF sorted_sort_desc])
  then have srt: "sorted_wrt (\<lambda>a b. b \<le> a) (map likelihood ?tops)"
    by (simp only: take_map)
  from r l1 l2 rng srt wf2 show ?thesis by blast
qed

section \<open>The claims\<close>

text \<open>
  C9. An empty fault code is handled exactly as an absent one: the prefix stays \<open>None\<close>,
  the fallback dictionaries seed the working list, no suffix is added to a reason, and
  the whole call returns what it returns without a fault code.
\<close>

theorem empty_fault_code_is_absent:
  "get_prefix (Some []) = None \<and>
   seed_suggestions h (get_prefix (Some [])) =
     ([length h, length h + 1, length h + 2], h @ fallback_entries) \<and>
   matched_suffix (get_prefix (Some [])) = [] \<and>
   diagnose_top h (Some []) d = diagnose_top h None d"
  by (simp add: get_prefix_def seed_suggestions_def matched_suffix_def diagnose_top_def)

text \<open>
  C10. The four keys of the shipped table have length 4 and are distinct. For every fault
  code at most one rule matches the prefix, the seeded working list has at most 4
  entries, and cutting the sorted list after 5 entries removes nothing: the call returns
  all ranked candidates, sorted.
\<close>

theorem shipped_table_one_rule_no_truncation:
  "map (length \<circ> fst) FAULT_CODE_MAP = [4, 4, 4, 4] \<and>
   distinct (map fst FAULT_CODE_MAP) \<and>
   length (filter (\<lambda>(key, items). startswith (normalize_prefix c) key) FAULT_CODE_MAP) \<le> 1 \<and>
   length (seed FAULT_CODE_MAP (normalize_prefix c)) \<le> 4 \<and>
   (\<exists>ss h1 h2. seed_suggestions h (get_prefix fc) = (ss, h1) \<and> length ss \<le> 4 \<and>
       apply_hints KEYWORD_HINTS (lower d) ss h1 = Inr h2 \<and>
       diagnose_top h fc d = Inr (sort_desc (rank h2 ss (get_prefix fc)), h2) \<and>
       length (rank h2 ss (get_prefix fc)) = length ss \<and>
       mset (sort_desc (rank h2 ss (get_prefix fc))) = mset (rank h2 ss (get_prefix fc)))"
proof -
  have keys: "map (length \<circ> fst) FAULT_CODE_MAP = [4, 4, 4, 4]"
    by (simp add: FAULT_CODE_MAP_def)
  have dist: "distinct (map fst FAULT_CODE_MAP)"
    by (simp add: FAULT_CODE_MAP_def)
  have four: "length (seed FAULT_CODE_MAP (normalize_prefix c)) \<le> 4"
    using seed_cases[of "normalize_prefix c"] by auto
  obtain ss h1 where s: "seed_suggestions h (get_prefix fc) = (ss, h1)"
    by (cases "seed_suggestions h (get_prefix fc)")
  from seed_suggestions_length[OF s] have len: "length ss \<le> 4" by simp
  from diagnose_top_unfold[OF s] obtain h2 where
    h2: "apply_hints KEYWORD_HINTS (lower d) ss h1 = Inr h2" and
    d: "diagnose_top h fc d = Inr (take 5 (sort_desc (rank h2 ss (get_prefix fc))), h2)"
    by blast
  have "length (sort_desc (rank h2 ss (get_prefix fc))) \<le> 5"
    using len by (simp add: length_sort_desc length_rank)
  then have "take 5 (sort_desc (rank h2 ss (get_prefix fc))) = sort_desc (rank h2 ss (get_prefix fc))"
    by simp
  with d have d': "diagnose_top h fc d = Inr (sort_desc (rank h2 ss (get_prefix fc)), h2)"
    by simp
  from s len h2 d' have
    "\<exists>ss h1 h2. seed_suggestions h (get_prefix fc) = (ss, h1) \<and> length ss \<le> 4 \<and>
       apply_hints KEYWORD_HINTS (lower d) ss h1 = Inr h2 \<and>
       diagnose_top h fc d = Inr (sort_desc (rank h2 ss (get_prefix fc)), h2) \<and>
       length (rank h2 ss (get_prefix fc)) = length ss \<and>
       mset (sort_desc (rank h2 ss (get_prefix fc))) = mset (rank h2 ss (get_prefix fc))"
    using length_rank mset_sort_desc by blast
  with keys dist one_rule_matches four show ?thesis by blast
qed

text \<open>
  C3. In every state of the store that a call can find (the table's dictionaries present,
  every base score a float), a call returns: between 1 and 5 suggestions, each with a
  likelihood between 0 and 1, in descending order of likelihood; and it leaves the store
  in such a state again.
\<close>

theorem diagnose_output_shape:
  assumes "wf_heap h"
  shows "\<exists>tops h'. diagnose_top h fc d = Inr (tops, h') \<and>
           1 \<le> length tops \<and> length tops \<le> 5 \<and>
           list_all (\<lambda>s. 0 \<le> likelihood s \<and> likelihood s \<le> 1) tops \<and>
           sorted_wrt (\<lambda>a b. b \<le> a) (map likelihood tops) \<and>
           wf_heap h'"
  using assms by (rule diagnose_top_shape)

theorem diagnose_output_shape_witness:
  "wf_heap init_heap \<and>
   (\<exists>tops h'. diagnose_top init_heap (Some ''P0300'') ''rough idle'' = Inr (tops, h') \<and>
           1 \<le> length tops \<and> length tops \<le> 5 \<and>
           list_all (\<lambda>s. 0 \<le> likelihood s \<and> likelihood s \<le> 1) tops \<and>
           sorted_wrt (\<lambda>a b. b \<le> a) (map likelihood tops) \<and>
           wf_heap h')"
  using diagnose_output_shape[OF wf_heap_init, of "Some ''P0300''" "''rough idle''"] wf_heap_init
  by blast

end
